theory Spec2Isabelle
  imports Main
begin

section \<open>Strings of the Go standard library\<close>

text \<open>
  A Go string is a sequence of bytes, so it is a \<^typ>\<open>string\<close> here: a list of
  8-bit characters. The functions below are the calls of package \<open>strings\<close> and
  \<open>fmt\<close> that the agents make, with the arguments the source passes.
\<close>

text \<open>\<open>strings.HasPrefix(s, prefix)\<close>.\<close>

definition HasPrefix :: "string \<Rightarrow> string \<Rightarrow> bool" where
  "HasPrefix s p = (take (length p) s = p)"

text \<open>\<open>strings.TrimPrefix(s, prefix)\<close>: \<open>s\<close> without the prefix, or \<open>s\<close> itself.\<close>

definition TrimPrefix :: "string \<Rightarrow> string \<Rightarrow> string" where
  "TrimPrefix s p = (if HasPrefix s p then drop (length p) s else s)"

text \<open>
  \<open>strings.Split(s, sep)\<close> for a separator of one byte (the source splits at
  \<open>"\n"\<close>): the pieces between the separators, one more than there are
  separators, so the empty string gives one empty piece.
\<close>

fun Split :: "string \<Rightarrow> char \<Rightarrow> string list" where
  "Split [] sep = [[]]"
| "Split (c # cs) sep =
     (if c = sep then [] # Split cs sep
      else (case Split cs sep of
              [] \<Rightarrow> [[c]]
            | l # ls \<Rightarrow> (c # l) # ls))"

text \<open>
  \<open>strings.SplitN(s, sep, 2)\<close> for a separator of one byte (the source splits at
  \<open>":"\<close>): the text before the first separator and everything after it, or
  \<open>s\<close> alone when it holds no separator.
\<close>

definition SplitN2 :: "string \<Rightarrow> char \<Rightarrow> string list" where
  "SplitN2 s sep =
     (if sep \<in> set s
      then [takeWhile (\<lambda>c. c \<noteq> sep) s, tl (dropWhile (\<lambda>c. c \<noteq> sep) s)]
      else [s])"

text \<open>\<open>strings.Join(elems, sep)\<close>.\<close>

fun Join :: "string list \<Rightarrow> string \<Rightarrow> string" where
  "Join [] sep = []"
| "Join [x] sep = x"
| "Join (x # y # ys) sep = x @ sep @ Join (y # ys) sep"

text \<open>
  \<open>strings.TrimSpace(s)\<close> removes the leading and the trailing white space, as
  \<open>unicode.IsSpace\<close> defines it on the runes that \<open>s\<close> decodes to. Each such rune
  has one UTF-8 encoding, none of them is the beginning or the end of another, and
  a byte that does not decode is not white space; so on the bytes the function
  removes, from each end, the encodings listed in \<open>spaceRunes\<close> for as long as
  one is there.
\<close>

definition spaceRunes :: "string list" where
  "spaceRunes =
     [[CHR 0x09], [CHR 0x0A], [CHR 0x0B], [CHR 0x0C], [CHR 0x0D], [CHR 0x20],
      [CHR 0xC2, CHR 0x85], [CHR 0xC2, CHR 0xA0],
      [CHR 0xE1, CHR 0x9A, CHR 0x80],
      [CHR 0xE2, CHR 0x80, CHR 0x80], [CHR 0xE2, CHR 0x80, CHR 0x81],
      [CHR 0xE2, CHR 0x80, CHR 0x82], [CHR 0xE2, CHR 0x80, CHR 0x83],
      [CHR 0xE2, CHR 0x80, CHR 0x84], [CHR 0xE2, CHR 0x80, CHR 0x85],
      [CHR 0xE2, CHR 0x80, CHR 0x86], [CHR 0xE2, CHR 0x80, CHR 0x87],
      [CHR 0xE2, CHR 0x80, CHR 0x88], [CHR 0xE2, CHR 0x80, CHR 0x89],
      [CHR 0xE2, CHR 0x80, CHR 0x8A],
      [CHR 0xE2, CHR 0x80, CHR 0xA8], [CHR 0xE2, CHR 0x80, CHR 0xA9],
      [CHR 0xE2, CHR 0x80, CHR 0xAF],
      [CHR 0xE2, CHR 0x81, CHR 0x9F],
      [CHR 0xE3, CHR 0x80, CHR 0x80]]"

fun stripAny :: "string list \<Rightarrow> string \<Rightarrow> string option" where
  "stripAny [] s = None"
| "stripAny (p # ps) s =
     (if p \<noteq> [] \<and> HasPrefix s p then Some (drop (length p) s) else stripAny ps s)"

function trimLeftRunes :: "string list \<Rightarrow> string \<Rightarrow> string" where
  "trimLeftRunes ps s =
     (case stripAny ps s of None \<Rightarrow> s | Some r \<Rightarrow> trimLeftRunes ps r)"
  by pat_completeness auto
termination
proof (relation "measure (\<lambda>(ps, s). length s)")
  show "wf (measure (\<lambda>(ps :: string list, s :: string). length s))"
    by simp
next
  fix ps :: "string list" and s r :: string
  assume "stripAny ps s = Some r"
  then have "length r < length s"
  proof (induction ps)
    case Nil
    then show ?case by simp
  next
    case (Cons p ps)
    show ?case
    proof (cases "p \<noteq> [] \<and> HasPrefix s p")
      case True
      with Cons.prems have r: "r = drop (length p) s" by simp
      from True have "length p \<le> length s"
        by (metis HasPrefix_def length_take min.cobounded1 min.commute)
      with True r show ?thesis by (cases p) auto
    next
      case False
      with Cons show ?thesis by auto
    qed
  qed
  then show "((ps, r), ps, s) \<in> measure (\<lambda>(ps, s). length s)"
    by simp
qed

declare trimLeftRunes.simps [simp del]

definition TrimSpace :: "string \<Rightarrow> string" where
  "TrimSpace s =
     rev (trimLeftRunes (map rev spaceRunes) (rev (trimLeftRunes spaceRunes s)))"

section \<open>Artifacts and their extraction (agents/base.go)\<close>

record Artifact =
  Filename :: string
  Content :: string
  Language :: string

text \<open>
  The local variables of \<open>ParseArtifacts\<close>, in the order of their declaration.
  A nil slice and an empty one behave alike under \<open>append\<close> and
  \<open>strings.Join\<close>, so both are the empty list.
\<close>

record parser =
  artifacts :: "Artifact list"
  inBlock :: bool
  lang :: string
  filename :: string
  blockLines :: "string list"

definition fence :: string where
  "fence = ''```''"

definition parser0 :: parser where
  "parser0 = \<lparr>artifacts = [], inBlock = False, lang = [], filename = [], blockLines = []\<rparr>"

text \<open>The test of a filename hint, and the value the hint gives.\<close>

definition isHint :: "string \<Rightarrow> bool" where
  "isHint line = (HasPrefix line ''// file:'' \<or> HasPrefix line ''# file:'')"

definition hintFilename :: "string \<Rightarrow> string \<Rightarrow> string" where
  "hintFilename old line =
     (let parts = SplitN2 line CHR '':''
      in if length parts = 2 then TrimSpace (parts ! 1) else old)"

text \<open>One turn of the loop over the lines: the three branches of the source, in order.\<close>

definition parseLine :: "parser \<Rightarrow> string \<Rightarrow> parser" where
  "parseLine st line =
     (if HasPrefix line fence \<and> \<not> inBlock st then
        st\<lparr>inBlock := True, lang := TrimPrefix line fence, filename := [], blockLines := []\<rparr>
      else if line = fence \<and> inBlock st then
        st\<lparr>inBlock := False,
           artifacts := artifacts st @
             [\<lparr>Filename = filename st,
               Content = Join (blockLines st) ''\<newline>'',
               Language = lang st\<rparr>]\<rparr>
      else if inBlock st then
        (let st' = (if isHint line
                    then st\<lparr>filename := hintFilename (filename st) line\<rparr>
                    else st)
         in st'\<lparr>blockLines := blockLines st' @ [line]\<rparr>)
      else st)"

definition parseLines :: "parser \<Rightarrow> string list \<Rightarrow> parser" where
  "parseLines st ls = foldl parseLine st ls"

definition ParseArtifacts :: "string \<Rightarrow> Artifact list" where
  "ParseArtifacts output = artifacts (parseLines parser0 (Split output CHR ''\<newline>''))"

section \<open>The errors of Go\<close>

text \<open>
  An \<open>error\<close> is a value with a message; \<open>fmt.Errorf\<close> with the verb \<open>%w\<close>
  gives an error that keeps the one it wraps, which \<open>errors.Unwrap\<close> returns. A Go
  function that returns \<open>(T, error)\<close> returns a pair here, \<open>nil\<close> being
  \<open>None\<close>.
\<close>

datatype error = errorString string | wrapError string error

fun message :: "error \<Rightarrow> string" where
  "message (errorString m) = m"
| "message (wrapError m e) = m"

fun Unwrap :: "error \<Rightarrow> error option" where
  "Unwrap (errorString m) = None"
| "Unwrap (wrapError m e) = Some e"

text \<open>\<open>fmt.Errorf(prefix + "%w", err)\<close>.\<close>

definition Errorf :: "string \<Rightarrow> error \<Rightarrow> error" where
  "Errorf prefix err = wrapError (prefix @ message err) err"

section \<open>Decimal numbers (the verb \<open>%d\<close>)\<close>

text \<open>
  The agents format \<open>i+1\<close> for an index \<open>i\<close> of a slice: a positive \<open>int\<close>
  far below the 64-bit limit, so a natural number here.
\<close>

fun itoa :: "nat \<Rightarrow> string" where
  "itoa n =
     (if n < 10 then [''0123456789'' ! n]
      else itoa (n div 10) @ [''0123456789'' ! (n mod 10)])"

declare itoa.simps [simp del]

section \<open>The service definition and its prompt (config/service_definition.go)\<close>

text \<open>
  The field \<open>Language\<close> of the Go struct is \<open>TargetLanguage\<close> here, since the
  artifacts have a field of the same name.
\<close>

record ServiceDefinition =
  Name :: string
  Description :: string
  TargetLanguage :: string
  Entities :: "string list"
  Operations :: "string list"
  Integrations :: "string list"
  ExtraRequirements :: "string list"

text \<open>
  One of the four optional sections of \<open>Prompt\<close>: when the sequence is not empty,
  the heading, one line \<open>"  - %s\n"\<close> for each element in order, and an empty line.
\<close>

definition addSection :: "string \<Rightarrow> string \<Rightarrow> string list \<Rightarrow> string" where
  "addSection p heading xs =
     (if length xs > 0
      then foldl (\<lambda>p e. p @ ''  - '' @ e @ ''\<newline>'') (p @ heading) xs @ ''\<newline>''
      else p)"

definition Prompt :: "ServiceDefinition \<Rightarrow> string" where
  "Prompt s =
     (let p = ''Microservice Name: '' @ Name s @ ''\<newline>\<newline>'';
          p = p @ ''Description:\<newline>'' @ Description s @ ''\<newline>\<newline>'';
          p = p @ ''Language: '' @ TargetLanguage s @ ''\<newline>\<newline>'';
          p = addSection p ''Core Domain Entities:\<newline>'' (Entities s);
          p = addSection p ''Key Business Operations:\<newline>'' (Operations s);
          p = addSection p ''External Integrations:\<newline>'' (Integrations s);
          p = addSection p ''Additional Requirements:\<newline>'' (ExtraRequirements s)
      in p)"

section \<open>The agents (agents/*.go)\<close>

record AgentResult =
  AgentName :: string
  Output :: string
  Artifacts :: "Artifact list"
  Error :: "error option"

text \<open>
  \<open>BaseAgent.Chat\<close>. The call of the client is outside the program: its reply, the
  content blocks of the response and the error, is the argument. A failed call
  gives the empty text and the error, wrapped; a successful one the texts of the
  blocks of type \<open>text\<close>, concatenated.
\<close>

record ContentBlock =
  Type :: string
  Text :: string

definition Chat :: "ContentBlock list \<times> error option \<Rightarrow> string \<times> error option" where
  "Chat reply =
     (case snd reply of
        Some err \<Rightarrow> ([], Some (Errorf ''claude API error: '' err))
      | None \<Rightarrow>
          (foldl (\<lambda>sb block. if Type block = ''text'' then sb @ Text block else sb)
             [] (fst reply),
           None))"

text \<open>
  The agents of the sources. Both versions of the backend agent and both of the
  messaging agent name their artifacts alike; the testing agent of the inventory
  version names them \<open>testing_security_<n>.go\<close>, the one of the generic version
  \<open>test_<n>.go\<close>.
\<close>

datatype agent =
    APIDesignAgent
  | BackendDBAgent
  | MessagingAgent
  | TestingSecurityAgent
  | InventoryTestingSecurityAgent

text \<open>\<open>Name()\<close>: the \<open>agentName\<close> that the constructor of the agent passes.\<close>

fun agentName :: "agent \<Rightarrow> string" where
  "agentName APIDesignAgent = ''API Design Agent''"
| "agentName BackendDBAgent = ''Backend & Database Agent''"
| "agentName MessagingAgent = ''Messaging & Events Agent''"
| "agentName TestingSecurityAgent = ''Testing & Security Agent''"
| "agentName InventoryTestingSecurityAgent = ''Testing & Security Agent''"

text \<open>
  The loop \<open>for i, art := range artifacts\<close> of the agents that name Go artifacts
  only; \<open>family\<close> is the beginning of the format string (\<open>api\<close> in
  \<open>"api_%d.go"\<close>) and \<open>i\<close> the index of the first element of the list.
\<close>

fun nameGoArtifacts :: "string \<Rightarrow> nat \<Rightarrow> Artifact list \<Rightarrow> Artifact list" where
  "nameGoArtifacts family i [] = []"
| "nameGoArtifacts family i (art # arts) =
     (if Filename art = [] \<and> Language art = ''go''
      then art\<lparr>Filename := family @ ''_'' @ itoa (i + 1) @ ''.go''\<rparr>
      else art)
     # nameGoArtifacts family (i + 1) arts"

text \<open>The loop of the backend agent, with its \<open>switch\<close> on the language.\<close>

fun nameBackendArtifacts :: "nat \<Rightarrow> Artifact list \<Rightarrow> Artifact list" where
  "nameBackendArtifacts i [] = []"
| "nameBackendArtifacts i (art # arts) =
     (if Filename art = [] then
        (if Language art = ''go'' then art\<lparr>Filename := ''service_'' @ itoa (i + 1) @ ''.go''\<rparr>
         else if Language art = ''sql'' then art\<lparr>Filename := ''migration_'' @ itoa (i + 1) @ ''.sql''\<rparr>
         else art)
      else art)
     # nameBackendArtifacts (i + 1) arts"

fun defaultNames :: "agent \<Rightarrow> Artifact list \<Rightarrow> Artifact list" where
  "defaultNames APIDesignAgent arts = nameGoArtifacts ''api'' 0 arts"
| "defaultNames BackendDBAgent arts = nameBackendArtifacts 0 arts"
| "defaultNames MessagingAgent arts = nameGoArtifacts ''messaging'' 0 arts"
| "defaultNames TestingSecurityAgent arts = nameGoArtifacts ''test'' 0 arts"
| "defaultNames InventoryTestingSecurityAgent arts = nameGoArtifacts ''testing_security'' 0 arts"

text \<open>
  The family of the names that an agent gives its Go artifacts: the beginning of
  its format string.
\<close>

fun goFamily :: "agent \<Rightarrow> string" where
  "goFamily APIDesignAgent = ''api''"
| "goFamily BackendDBAgent = ''service''"
| "goFamily MessagingAgent = ''messaging''"
| "goFamily TestingSecurityAgent = ''test''"
| "goFamily InventoryTestingSecurityAgent = ''testing_security''"

text \<open>
  \<open>Run\<close> from the call of \<open>Chat\<close> on: the argument is what \<open>a.Chat(ctx, messages)\<close>
  returned, the result the pair \<open>(*AgentResult, error)\<close>. The prompt that the
  agent sends has no part in what follows the call.
\<close>

definition Run :: "agent \<Rightarrow> string \<times> error option \<Rightarrow> AgentResult option \<times> error option" where
  "Run a chat =
     (case snd chat of
        Some err \<Rightarrow> (None, Some (Errorf (''['' @ agentName a @ ''] failed: '') err))
      | None \<Rightarrow>
          (let output = fst chat;
               artifacts = defaultNames a (ParseArtifacts output)
           in (Some \<lparr>AgentName = agentName a, Output = output,
                      Artifacts = artifacts, Error = None\<rparr>,
               None)))"

section \<open>The pipeline (orchestrator/pipeline.go)\<close>

text \<open>
  Modelled from the spec: the file orchestrator/pipeline.go, which holds
  \<open>Pipeline.Run\<close>, is not among the sources; only its caller (main.go) and the
  project's description of it are. The definitions of this section follow
  section 4.1 of the specification: a context seeded with the rendered prompt
  under a fixed key; the stages run in their configured order, each on the
  context as it stands; an error of a stage ends the run at once and is returned
  wrapped with the name of the stage; the raw output of a successful stage is cut
  to its first 3000 characters and stored under the key of the stage, and the
  result of the stage is appended to the results. The time stamps of the result
  are left out. The specification gives no layout for the wrapped message; the
  model puts the name of the stage before the message of the cause.
\<close>

text \<open>
  Modelled from the spec: the fixed character cap of orchestrator/pipeline.go
  (missing), 3000 in the specification and in the project's description.
\<close>

definition contextCap :: nat where
  "contextCap = 3000"

text \<open>
  Modelled from the spec: the truncation that the missing \<open>Pipeline.Run\<close> applies
  to a raw output, "the first N characters", with no regard for word or sentence
  boundaries.
\<close>

definition truncateOutput :: "string \<Rightarrow> string" where
  "truncateOutput rawOutput = take contextCap rawOutput"

text \<open>
  Modelled from the spec: an entry of the list of stages that the missing
  \<open>NewPipeline\<close> configures: the name of the stage, the context key it writes,
  and its \<open>Run\<close> bound to the descriptor, as a function of the context it is given
  that returns an error or a result.
\<close>

record Stage =
  stageName :: string
  contextKey :: string
  stageRun :: "(string \<rightharpoonup> string) \<Rightarrow> error + AgentResult"

text \<open>
  Modelled from the spec: the state of the loop of the missing \<open>Pipeline.Run\<close>:
  the context, the results so far, and the names of the stages whose \<open>Run\<close> has
  been invoked, in the order of the invocations.
\<close>

record pipelineState =
  agentContext :: "string \<rightharpoonup> string"
  results :: "AgentResult list"
  invoked :: "string list"

text \<open>
  Modelled from the spec: one turn of the loop of the missing \<open>Pipeline.Run\<close>
  (steps 2 to 5 of section 4.1): invoke the stage on the current context; on an
  error stop with the error wrapped with the name of the stage; on success store
  the truncated output under the key of the stage and append the result.
\<close>

definition runStage :: "pipelineState \<Rightarrow> Stage \<Rightarrow> pipelineState \<times> error option" where
  "runStage st s =
     (let st1 = st\<lparr>invoked := invoked st @ [stageName s]\<rparr>
      in case stageRun s (agentContext st) of
           Inl err \<Rightarrow> (st1, Some (Errorf (stageName s @ '': '') err))
         | Inr r \<Rightarrow>
             (st1\<lparr>agentContext := (agentContext st)(contextKey s \<mapsto> truncateOutput (Output r)),
                  results := results st @ [r]\<rparr>,
              None))"

text \<open>
  Modelled from the spec: the loop of the missing \<open>Pipeline.Run\<close> over the stages
  in their configured order, which ends at the first error.
\<close>

fun runStages :: "pipelineState \<Rightarrow> Stage list \<Rightarrow> pipelineState \<times> error option" where
  "runStages st [] = (st, None)"
| "runStages st (s # ss) =
     (case runStage st s of
        (st', Some err) \<Rightarrow> (st', Some err)
      | (st', None) \<Rightarrow> runStages st' ss)"

text \<open>
  Modelled from the spec: the result of the missing \<open>Pipeline.Run\<close>, with the
  field names of the project's description, without the time stamps.
\<close>

record PipelineResult =
  Service :: ServiceDefinition
  Results :: "AgentResult list"

text \<open>
  Modelled from the spec: the state in which the missing \<open>Pipeline.Run\<close> starts:
  one seed entry, the rendered prompt under the key \<open>project_context\<close>.
\<close>

definition pipelineState0 :: "ServiceDefinition \<Rightarrow> pipelineState" where
  "pipelineState0 svc =
     \<lparr>agentContext = [''project_context'' \<mapsto> Prompt svc], results = [], invoked = []\<rparr>"

text \<open>
  Modelled from the spec: the missing \<open>Pipeline.Run\<close>: the result with all the
  stage results when every stage succeeds, and otherwise the error alone, the
  results accumulated so far being dropped.
\<close>

definition PipelineRun :: "Stage list \<Rightarrow> ServiceDefinition \<Rightarrow> PipelineResult option \<times> error option" where
  "PipelineRun stages svc =
     (case runStages (pipelineState0 svc) stages of
        (st, Some err) \<Rightarrow> (None, Some err)
      | (st, None) \<Rightarrow> (Some \<lparr>Service = svc, Results = results st\<rparr>, None))"

section \<open>The default names as the specification words them\<close>

text \<open>
  Modelled from the spec: \<open>extensionForLang\<close> belongs to orchestrator/pipeline.go,
  which is not among the sources. The mapping is the one of section 6 of the
  specification: \<open>go\<close> to \<open>.go\<close>, \<open>sql\<close> to \<open>.sql\<close>, \<open>yaml\<close> and \<open>yml\<close> to
  \<open>.yaml\<close>, \<open>json\<close> to \<open>.json\<close>, anything else to \<open>.txt\<close>.
\<close>

fun extensionForLang :: "string \<Rightarrow> string" where
  "extensionForLang l =
     (if l = ''go'' then ''.go''
      else if l = ''sql'' then ''.sql''
      else if l = ''yaml'' \<or> l = ''yml'' then ''.yaml''
      else if l = ''json'' then ''.json''
      else ''.txt'')"

text \<open>
  The naming pass in the words of section 4.2 of the specification, to compare
  with \<open>defaultNames\<close>: every artifact with an empty filename gets
  \<open><family>_<n>.<ext>\<close>, where \<open>n\<close> counts the artifacts with an empty filename up
  to this one and the extension follows the language tag. Here \<open>n\<close> is the number
  of such artifacts met before.
\<close>

fun specDefaultNames :: "string \<Rightarrow> nat \<Rightarrow> Artifact list \<Rightarrow> Artifact list" where
  "specDefaultNames family n [] = []"
| "specDefaultNames family n (art # arts) =
     (if Filename art = []
      then art\<lparr>Filename := family @ ''_'' @ itoa (n + 1) @ extensionForLang (Language art)\<rparr>
           # specDefaultNames family (n + 1) arts
      else art # specDefaultNames family n arts)"

text \<open>
  An output with three closed blocks: a Go block with a hint, a Go block without
  one, and a YAML block without one.
\<close>

definition threeBlocks :: string where
  "threeBlocks =
     ''```go\<newline>// file: a.go\<newline>x\<newline>```\<newline>```go\<newline>y\<newline>```\<newline>```yaml\<newline>z\<newline>```''"

section \<open>Example values\<close>

text \<open>\<open>InventoryService()\<close> of config/service_definition.go.\<close>

definition InventoryService :: ServiceDefinition where
  "InventoryService =
     \<lparr>Name = ''inventory'',
      Description = ''Tracks product stock levels across multiple warehouses for an e-commerce platform. Handles reservations, replenishment, and low-stock alerting.'',
      TargetLanguage = ''Go'',
      Entities = [''Product'', ''StockItem'', ''Warehouse'', ''StockMovement'', ''Reservation''],
      Operations =
        [''Reserve stock for an order'',
         ''Release reserved stock on cancellation'',
         ''Decrement stock on fulfillment'',
         ''Replenish stock'',
         ''Aggregate stock across warehouses'',
         ''Trigger low-stock alerts''],
      Integrations =
        [''Order Service (Kafka events)'',
         ''PostgreSQL (primary store)'',
         ''Redis (stock level cache)''],
      ExtraRequirements =
        [''Prevent negative stock using atomic updates'',
         ''Full audit trail of all stock movements'',
         ''Support product variants (size, color)'']\<rparr>"

text \<open>
  A stage that ignores the context and returns a fixed error, or a result with a
  fixed output and no artifacts.
\<close>

definition stubStage :: "string \<Rightarrow> string \<Rightarrow> error + string \<Rightarrow> Stage" where
  "stubStage name key reply =
     \<lparr>stageName = name, contextKey = key,
      stageRun = (\<lambda>ctx. case reply of
                           Inl err \<Rightarrow> Inl err
                         | Inr output \<Rightarrow>
                             Inr \<lparr>AgentName = name, Output = output, Artifacts = [], Error = None\<rparr>)\<rparr>"

text \<open>
  Three artifacts as the extractor may return them: one named by a hint, and two
  without a filename, tagged \<open>go\<close> and \<open>yaml\<close>.
\<close>

definition namedAndUnnamed :: "Artifact list" where
  "namedAndUnnamed =
     [\<lparr>Filename = ''a.go'', Content = ''x'', Language = ''go''\<rparr>,
      \<lparr>Filename = [], Content = ''y'', Language = ''go''\<rparr>,
      \<lparr>Filename = [], Content = ''z'', Language = ''yaml''\<rparr>]"

section \<open>Facts about the strings and the loop of the extractor\<close>

lemma HasPrefix_Cons: "HasPrefix s (c # p) = (case s of [] \<Rightarrow> False | d # t \<Rightarrow> d = c \<and> HasPrefix t p)"
  by (cases s) (auto simp: HasPrefix_def)

lemma fence_not_hint: "HasPrefix line fence \<Longrightarrow> \<not> isHint line"
  by (cases line) (auto simp: fence_def isHint_def HasPrefix_Cons)

lemma hint_not_fence: "isHint line \<Longrightarrow> line \<noteq> fence"
  by (auto simp: fence_def isHint_def HasPrefix_Cons)

lemma HasPrefix_fence_self: "HasPrefix fence fence"
  by (simp add: HasPrefix_def)

lemma HasPrefix_iff: "HasPrefix s p \<longleftrightarrow> (\<exists>r. s = p @ r)"
  unfolding HasPrefix_def by (metis append_eq_conv_conj append_take_drop_id)

lemma isHint_colon: "isHint line \<Longrightarrow> CHR '':'' \<in> set line"
  by (auto simp: isHint_def HasPrefix_iff)

lemma hint_value_slash:
  "HasPrefix line ''// file:'' \<Longrightarrow> hintFilename old line = TrimSpace (drop 8 line)"
  by (auto simp: HasPrefix_iff hintFilename_def SplitN2_def)

lemma hint_value_hash:
  "HasPrefix line ''# file:'' \<Longrightarrow> hintFilename old line = TrimSpace (drop 7 line)"
  by (auto simp: HasPrefix_iff hintFilename_def SplitN2_def)

lemma hintFilename_isHint:
  "isHint line \<Longrightarrow> hintFilename old line = TrimSpace (tl (dropWhile (\<lambda>c. c \<noteq> CHR '':'') line))"
  by (frule isHint_colon) (simp add: hintFilename_def SplitN2_def)

lemma parseLine_inside_close:
  "inBlock st \<Longrightarrow> parseLine st fence =
     st\<lparr>inBlock := False,
        artifacts := artifacts st @
          [\<lparr>Filename = filename st, Content = Join (blockLines st) ''\<newline>'', Language = lang st\<rparr>]\<rparr>"
  by (simp add: parseLine_def)

lemma parseLine_inside_content:
  "inBlock st \<Longrightarrow> line \<noteq> fence \<Longrightarrow> parseLine st line =
     st\<lparr>filename := (if isHint line then hintFilename (filename st) line else filename st),
        blockLines := blockLines st @ [line]\<rparr>"
  by (simp add: parseLine_def Let_def)

lemma parseLine_outside_open:
  "\<not> inBlock st \<Longrightarrow> HasPrefix line fence \<Longrightarrow> parseLine st line =
     st\<lparr>inBlock := True, lang := TrimPrefix line fence, filename := [], blockLines := []\<rparr>"
  by (simp add: parseLine_def)

lemma parseLine_outside_skip:
  "\<not> inBlock st \<Longrightarrow> \<not> HasPrefix line fence \<Longrightarrow> parseLine st line = st"
  by (auto simp add: parseLine_def)

lemma parseLines_append: "parseLines st (xs @ ys) = parseLines (parseLines st xs) ys"
  by (simp add: parseLines_def)

lemma parseLines_Cons: "parseLines st (l # ls) = parseLines (parseLine st l) ls"
  by (simp add: parseLines_def)

lemma parseLines_Nil: "parseLines st [] = st"
  by (simp add: parseLines_def)

lemma parseLines_body:
  "inBlock st \<Longrightarrow> fence \<notin> set body \<Longrightarrow>
   parseLines st body =
     st\<lparr>filename :=
          (if filter isHint body = [] then filename st
           else TrimSpace (tl (dropWhile (\<lambda>c. c \<noteq> CHR '':'') (last (filter isHint body))))),
        blockLines := blockLines st @ body\<rparr>"
proof (induction body rule: rev_induct)
  case Nil
  then show ?case by (simp add: parseLines_Nil)
next
  case (snoc l ls)
  let ?st = "parseLines st ls"
  from snoc.prems have l: "l \<noteq> fence" and ls: "fence \<notin> set ls" by auto
  have IH: "?st = st\<lparr>filename :=
          (if filter isHint ls = [] then filename st
           else TrimSpace (tl (dropWhile (\<lambda>c. c \<noteq> CHR '':'') (last (filter isHint ls))))),
        blockLines := blockLines st @ ls\<rparr>"
    using snoc.IH [OF snoc.prems(1) ls] .
  then have "inBlock ?st" using snoc.prems(1) by simp
  then have "parseLine ?st l =
     ?st\<lparr>filename := (if isHint l then hintFilename (filename ?st) l else filename ?st),
        blockLines := blockLines ?st @ [l]\<rparr>"
    using l by (rule parseLine_inside_content)
  moreover have "parseLines st (ls @ [l]) = parseLine ?st l"
    by (simp add: parseLines_append parseLines_Cons parseLines_Nil)
  ultimately have "parseLines st (ls @ [l]) =
     ?st\<lparr>filename := (if isHint l then hintFilename (filename ?st) l else filename ?st),
        blockLines := blockLines ?st @ [l]\<rparr>" by simp
  also have "\<dots> = st\<lparr>filename :=
          (if filter isHint (ls @ [l]) = [] then filename st
           else TrimSpace (tl (dropWhile (\<lambda>c. c \<noteq> CHR '':'') (last (filter isHint (ls @ [l])))))),
        blockLines := blockLines st @ ls @ [l]\<rparr>"
    by (subst IH, subst IH, subst IH) (simp add: hintFilename_isHint)
  finally show ?case by simp
qed

lemma parseLines_block:
  assumes "\<not> inBlock st" and "HasPrefix opener fence" and "fence \<notin> set body"
  shows "parseLines st (opener # body @ [fence]) =
     st\<lparr>lang := TrimPrefix opener fence,
        filename :=
          (if filter isHint body = [] then []
           else TrimSpace (tl (dropWhile (\<lambda>c. c \<noteq> CHR '':'') (last (filter isHint body))))),
        blockLines := body,
        artifacts := artifacts st @
          [\<lparr>Filename =
              (if filter isHint body = [] then []
               else TrimSpace (tl (dropWhile (\<lambda>c. c \<noteq> CHR '':'') (last (filter isHint body))))),
            Content = Join body ''\<newline>'',
            Language = TrimPrefix opener fence\<rparr>]\<rparr>"
proof -
  let ?s1 = "parseLine st opener"
  have s1: "?s1 = st\<lparr>inBlock := True, lang := TrimPrefix opener fence, filename := [], blockLines := []\<rparr>"
    using assms(1,2) by (rule parseLine_outside_open)
  then have in1: "inBlock ?s1" by simp
  let ?s2 = "parseLines ?s1 body"
  have s2: "?s2 = ?s1\<lparr>filename :=
          (if filter isHint body = [] then filename ?s1
           else TrimSpace (tl (dropWhile (\<lambda>c. c \<noteq> CHR '':'') (last (filter isHint body))))),
        blockLines := blockLines ?s1 @ body\<rparr>"
    using in1 assms(3) by (rule parseLines_body)
  then have in2: "inBlock ?s2" using in1 by simp
  have "parseLines st (opener # body @ [fence]) = parseLine ?s2 fence"
    by (simp add: parseLines_Cons parseLines_append parseLines_Nil)
  also have "\<dots> = ?s2\<lparr>inBlock := False,
        artifacts := artifacts ?s2 @
          [\<lparr>Filename = filename ?s2, Content = Join (blockLines ?s2) ''\<newline>'', Language = lang ?s2\<rparr>]\<rparr>"
    using in2 by (rule parseLine_inside_close)
  also have "\<dots> = st\<lparr>lang := TrimPrefix opener fence,
        filename :=
          (if filter isHint body = [] then []
           else TrimSpace (tl (dropWhile (\<lambda>c. c \<noteq> CHR '':'') (last (filter isHint body))))),
        blockLines := body,
        artifacts := artifacts st @
          [\<lparr>Filename =
              (if filter isHint body = [] then []
               else TrimSpace (tl (dropWhile (\<lambda>c. c \<noteq> CHR '':'') (last (filter isHint body))))),
            Content = Join body ''\<newline>'',
            Language = TrimPrefix opener fence\<rparr>]\<rparr>"
    using assms(1) by (subst s2, subst s2, subst s2, subst s2, subst s2) (simp add: s1)
  finally show ?thesis .
qed

lemma parseLine_artifacts_grow: "\<exists>new. artifacts (parseLine st l) = artifacts st @ new"
  by (simp add: parseLine_def Let_def)

lemma parseLines_artifacts_grow: "\<exists>new. artifacts (parseLines st ls) = artifacts st @ new"
proof (induction ls arbitrary: st)
  case Nil
  then show ?case by (simp add: parseLines_Nil)
next
  case (Cons l ls)
  obtain a where a: "artifacts (parseLine st l) = artifacts st @ a"
    using parseLine_artifacts_grow by blast
  obtain b where "artifacts (parseLines (parseLine st l) ls) = artifacts (parseLine st l) @ b"
    using Cons.IH by blast
  with a show ?case by (simp add: parseLines_Cons)
qed

lemma parseLines_unclosed:
  assumes "\<not> inBlock st" and "HasPrefix opener fence" and "fence \<notin> set body"
  shows "artifacts (parseLines st (opener # body)) = artifacts st"
proof -
  let ?s1 = "parseLine st opener"
  have s1: "?s1 = st\<lparr>inBlock := True, lang := TrimPrefix opener fence, filename := [], blockLines := []\<rparr>"
    using assms(1,2) by (rule parseLine_outside_open)
  then have in1: "inBlock ?s1" by simp
  have "artifacts (parseLines ?s1 body) = artifacts ?s1"
    by (subst parseLines_body [OF in1 assms(3)]) simp
  then show ?thesis by (simp add: parseLines_Cons s1)
qed

lemma Split_not_Nil: "Split s c \<noteq> []"
  by (induction s) (auto split: list.splits)

lemma Split_no_sep: "l \<in> set (Split s c) \<Longrightarrow> c \<notin> set l"
proof (induction s arbitrary: l)
  case Nil
  then show ?case by simp
next
  case (Cons d s)
  then show ?case
    by (cases "Split s c") (auto simp: Split_not_Nil split: if_splits)
qed

lemma Split_line: "c \<notin> set l \<Longrightarrow> Split l c = [l]"
  by (induction l) auto

lemma Split_line_sep: "c \<notin> set l \<Longrightarrow> Split (l @ c # s) c = l # Split s c"
  by (induction l) auto

lemma Split_Join:
  "ls \<noteq> [] \<Longrightarrow> (\<And>l. l \<in> set ls \<Longrightarrow> c \<notin> set l) \<Longrightarrow> Split (Join ls [c]) c = ls"
proof (induction ls "[c]" rule: Join.induct)
  case 1
  then show ?case by simp
next
  case (2 x)
  then show ?case by (simp add: Split_line)
next
  case (3 x y ys)
  then show ?case by (simp add: Split_line_sep)
qed

lemma ParseArtifacts_Join:
  assumes "\<And>l. l \<in> set ls \<Longrightarrow> CHR ''\<newline>'' \<notin> set l"
  shows "ParseArtifacts (Join ls ''\<newline>'') = artifacts (parseLines parser0 ls)"
proof (cases "ls = []")
  case True
  then show ?thesis
    by (simp add: ParseArtifacts_def parseLines_def parseLine_def parser0_def HasPrefix_def fence_def)
next
  case False
  then have "Split (Join ls ''\<newline>'') CHR ''\<newline>'' = ls"
    using assms by (rule Split_Join)
  then show ?thesis by (simp add: ParseArtifacts_def)
qed

lemma parseLine_prefixed:
  assumes "inBlock s1 = inBlock s2"
    and "inBlock s2 \<Longrightarrow> lang s1 = lang s2 \<and> filename s1 = filename s2 \<and> blockLines s1 = blockLines s2"
    and "artifacts s1 = a @ artifacts s2"
  shows "inBlock (parseLine s1 l) = inBlock (parseLine s2 l) \<and>
         (inBlock (parseLine s2 l) \<longrightarrow>
            lang (parseLine s1 l) = lang (parseLine s2 l) \<and>
            filename (parseLine s1 l) = filename (parseLine s2 l) \<and>
            blockLines (parseLine s1 l) = blockLines (parseLine s2 l)) \<and>
         artifacts (parseLine s1 l) = a @ artifacts (parseLine s2 l)"
proof (cases "inBlock s2")
  case True
  with assms show ?thesis by (simp add: parseLine_def Let_def)
next
  case False
  with assms(1,3) show ?thesis by (simp add: parseLine_def Let_def)
qed

lemma parseLines_prefixed:
  assumes "inBlock s1 = inBlock s2"
    and "inBlock s2 \<Longrightarrow> lang s1 = lang s2 \<and> filename s1 = filename s2 \<and> blockLines s1 = blockLines s2"
    and "artifacts s1 = a @ artifacts s2"
  shows "artifacts (parseLines s1 ls) = a @ artifacts (parseLines s2 ls)"
  using assms
proof (induction ls arbitrary: s1 s2)
  case Nil
  then show ?case by (simp add: parseLines_Nil)
next
  case (Cons l ls)
  from parseLine_prefixed [OF Cons.prems(1,2,3), of l]
  have 1: "inBlock (parseLine s1 l) = inBlock (parseLine s2 l)"
    and 2: "inBlock (parseLine s2 l) \<Longrightarrow>
            lang (parseLine s1 l) = lang (parseLine s2 l) \<and>
            filename (parseLine s1 l) = filename (parseLine s2 l) \<and>
            blockLines (parseLine s1 l) = blockLines (parseLine s2 l)"
    and 3: "artifacts (parseLine s1 l) = a @ artifacts (parseLine s2 l)"
    by blast+
  from Cons.IH [OF 1 2 3] show ?case by (simp add: parseLines_Cons)
qed

lemma parseLines_outside_fresh:
  assumes "\<not> inBlock st"
  shows "artifacts (parseLines st ls) = artifacts st @ artifacts (parseLines parser0 ls)"
proof (rule parseLines_prefixed)
  show "inBlock st = inBlock parser0" using assms by (simp add: parser0_def)
  show "lang st = lang parser0 \<and> filename st = filename parser0 \<and> blockLines st = blockLines parser0"
    if "inBlock parser0" using that by (simp add: parser0_def)
  show "artifacts st = artifacts st @ artifacts parser0" by (simp add: parser0_def)
qed

section \<open>Facts about the naming loops and the prompt\<close>

lemma length_nameGoArtifacts: "length (nameGoArtifacts family k arts) = length arts"
  by (induction arts arbitrary: k) auto

lemma length_nameBackendArtifacts: "length (nameBackendArtifacts k arts) = length arts"
  by (induction arts arbitrary: k) auto

lemma nth_nameGoArtifacts:
  "i < length arts \<Longrightarrow>
   nameGoArtifacts family k arts ! i =
     (if Filename (arts ! i) = [] \<and> Language (arts ! i) = ''go''
      then (arts ! i)\<lparr>Filename := family @ ''_'' @ itoa (k + i + 1) @ ''.go''\<rparr>
      else arts ! i)"
proof (induction arts arbitrary: k i)
  case Nil
  then show ?case by simp
next
  case (Cons art arts)
  show ?case
  proof (cases i)
    case 0
    then show ?thesis by simp
  next
    case (Suc j)
    with Cons.prems have "j < length arts" by simp
    from Cons.IH [OF this, of "k + 1"] Suc show ?thesis by simp
  qed
qed

lemma nth_nameBackendArtifacts:
  "i < length arts \<Longrightarrow>
   nameBackendArtifacts k arts ! i =
     (if Filename (arts ! i) = [] \<and> Language (arts ! i) = ''go''
      then (arts ! i)\<lparr>Filename := ''service_'' @ itoa (k + i + 1) @ ''.go''\<rparr>
      else if Filename (arts ! i) = [] \<and> Language (arts ! i) = ''sql''
      then (arts ! i)\<lparr>Filename := ''migration_'' @ itoa (k + i + 1) @ ''.sql''\<rparr>
      else arts ! i)"
proof (induction arts arbitrary: k i)
  case Nil
  then show ?case by simp
next
  case (Cons art arts)
  show ?case
  proof (cases i)
    case 0
    then show ?thesis by simp
  next
    case (Suc j)
    with Cons.prems have "j < length arts" by simp
    from Cons.IH [OF this, of "k + 1"] Suc show ?thesis by simp
  qed
qed

lemma length_defaultNames: "length (defaultNames a arts) = length arts"
  by (cases a) (simp_all add: length_nameGoArtifacts length_nameBackendArtifacts)

lemma nth_defaultNames:
  "i < length arts \<Longrightarrow>
   defaultNames a arts ! i =
     (if Filename (arts ! i) = [] \<and> Language (arts ! i) = ''go''
      then (arts ! i)\<lparr>Filename := goFamily a @ ''_'' @ itoa (i + 1) @ ''.go''\<rparr>
      else if a = BackendDBAgent \<and> Filename (arts ! i) = [] \<and> Language (arts ! i) = ''sql''
      then (arts ! i)\<lparr>Filename := ''migration_'' @ itoa (i + 1) @ ''.sql''\<rparr>
      else arts ! i)"
  by (cases a) (simp_all add: nth_nameGoArtifacts nth_nameBackendArtifacts)

lemma foldl_append_each: "foldl (\<lambda>p e. p @ f e) q xs = q @ concat (map f xs)"
  by (induction xs arbitrary: q) auto

lemma addSection_eq:
  "addSection p heading xs =
     p @ (if xs = [] then [] else heading @ concat (map (\<lambda>e. ''  - '' @ e @ ''\<newline>'') xs) @ ''\<newline>'')"
  unfolding addSection_def by (simp add: foldl_append_each)

lemma Prompt_text:
  "Prompt s =
     ''Microservice Name: '' @ Name s @ ''\<newline>\<newline>'' @
     ''Description:\<newline>'' @ Description s @ ''\<newline>\<newline>'' @
     ''Language: '' @ TargetLanguage s @ ''\<newline>\<newline>'' @
     (if Entities s = [] then []
      else ''Core Domain Entities:\<newline>'' @
           concat (map (\<lambda>e. ''  - '' @ e @ ''\<newline>'') (Entities s)) @ ''\<newline>'') @
     (if Operations s = [] then []
      else ''Key Business Operations:\<newline>'' @
           concat (map (\<lambda>e. ''  - '' @ e @ ''\<newline>'') (Operations s)) @ ''\<newline>'') @
     (if Integrations s = [] then []
      else ''External Integrations:\<newline>'' @
           concat (map (\<lambda>e. ''  - '' @ e @ ''\<newline>'') (Integrations s)) @ ''\<newline>'') @
     (if ExtraRequirements s = [] then []
      else ''Additional Requirements:\<newline>'' @
           concat (map (\<lambda>e. ''  - '' @ e @ ''\<newline>'') (ExtraRequirements s)) @ ''\<newline>'')"
  unfolding Prompt_def Let_def addSection_eq by (simp only: append_assoc)

section \<open>Facts about the pipeline\<close>

lemma runStage_ok:
  "stageRun s (agentContext st) = Inr r \<Longrightarrow>
   runStage st s =
     (st\<lparr>invoked := invoked st @ [stageName s],
         agentContext := (agentContext st)(contextKey s \<mapsto> truncateOutput (Output r)),
         results := results st @ [r]\<rparr>, None)"
  by (simp add: runStage_def Let_def)

lemma runStage_error:
  "stageRun s (agentContext st) = Inl e \<Longrightarrow>
   runStage st s =
     (st\<lparr>invoked := invoked st @ [stageName s]\<rparr>, Some (Errorf (stageName s @ '': '') e))"
  by (simp add: runStage_def Let_def)

lemma runStage_invoked: "invoked (fst (runStage st s)) = invoked st @ [stageName s]"
  by (cases "stageRun s (agentContext st)") (simp_all add: runStage_ok runStage_error)

lemma runStages_append:
  "runStages st pre = (st1, None) \<Longrightarrow> runStages st (pre @ ss) = runStages st1 ss"
proof (induction pre arbitrary: st)
  case Nil
  then show ?case by simp
next
  case (Cons s pre)
  obtain st' err where r: "runStage st s = (st', err)" by (cases "runStage st s")
  show ?case
  proof (cases err)
    case None
    with r Cons.prems have "runStages st' pre = (st1, None)" by simp
    from Cons.IH [OF this] r None show ?thesis by simp
  next
    case (Some e)
    with r Cons.prems show ?thesis by simp
  qed
qed

lemma runStages_invoked:
  "runStages st pre = (st1, None) \<Longrightarrow> invoked st1 = invoked st @ map stageName pre"
proof (induction pre arbitrary: st)
  case Nil
  then show ?case by simp
next
  case (Cons s pre)
  obtain st' err where r: "runStage st s = (st', err)" by (cases "runStage st s")
  show ?case
  proof (cases err)
    case None
    with r Cons.prems have "runStages st' pre = (st1, None)" by simp
    from Cons.IH [OF this] have "invoked st1 = invoked st' @ map stageName pre" .
    moreover from r have "invoked st' = invoked st @ [stageName s]"
      using runStage_invoked [of st s] by simp
    ultimately show ?thesis by simp
  next
    case (Some e)
    with r Cons.prems show ?thesis by simp
  qed
qed

section \<open>Properties of the extractor\<close>

text \<open>
  Claim C2. The text of one Go block with a filename hint,
  \<open>"```go\n// file: x.go\nfunc f(){}\n```"\<close>, gives exactly one artifact:
  filename \<open>x.go\<close>, language \<open>go\<close>, and as content the hint line and the
  code line joined by a newline, without the fences.
\<close>

theorem ParseArtifacts_round_trip:
  "ParseArtifacts ''```go\<newline>// file: x.go\<newline>func f(){}\<newline>```'' =
     [\<lparr>Filename = ''x.go'',
       Content = ''// file: x.go\<newline>func f(){}'',
       Language = ''go''\<rparr>]"
  by code_simp

text \<open>
  Claim C3. A block that is opened and not closed before the output ends gives no
  artifact. When the lines of the output are some lines \<open>pre\<close> after which the
  extractor is outside a block, then a line that begins with the fence, then lines
  none of which is the bare fence, the artifacts of the output are those that the
  lines \<open>pre\<close> alone give: the ones of the blocks closed before. The opener and
  the lines collected after it leave no trace.
\<close>

theorem unclosed_block_dropped:
  assumes "Split output CHR ''\<newline>'' = pre @ opener # body"
    and "\<not> inBlock (parseLines parser0 pre)"
    and "HasPrefix opener fence"
    and "fence \<notin> set body"
  shows "ParseArtifacts output = artifacts (parseLines parser0 pre) \<and>
         ParseArtifacts output = ParseArtifacts (Join pre ''\<newline>'')"
proof -
  have 1: "ParseArtifacts output = artifacts (parseLines parser0 pre)"
    using parseLines_unclosed [OF assms(2,3,4)]
    by (simp add: ParseArtifacts_def assms(1) parseLines_append)
  have "\<And>l. l \<in> set pre \<Longrightarrow> CHR ''\<newline>'' \<notin> set l"
  proof -
    fix l assume "l \<in> set pre"
    then have "l \<in> set (Split output CHR ''\<newline>'')" by (simp add: assms(1))
    then show "CHR ''\<newline>'' \<notin> set l" by (rule Split_no_sep)
  qed
  then have "ParseArtifacts (Join pre ''\<newline>'') = artifacts (parseLines parser0 pre)"
    by (rule ParseArtifacts_Join)
  with 1 show ?thesis by simp
qed

theorem unclosed_block_dropped_witness:
  "Split ''```go\<newline>a\<newline>```\<newline>```sql\<newline>b'' CHR ''\<newline>'' = [''```go'', ''a'', ''```''] @ ''```sql'' # [''b''] \<and>
   \<not> inBlock (parseLines parser0 [''```go'', ''a'', ''```'']) \<and>
   HasPrefix ''```sql'' fence \<and>
   fence \<notin> set [''b''] \<and>
   ParseArtifacts ''```go\<newline>a\<newline>```\<newline>```sql\<newline>b'' =
     artifacts (parseLines parser0 [''```go'', ''a'', ''```'']) \<and>
   ParseArtifacts ''```go\<newline>a\<newline>```\<newline>```sql\<newline>b'' =
     ParseArtifacts (Join [''```go'', ''a'', ''```''] ''\<newline>'') \<and>
   ParseArtifacts ''```go\<newline>a\<newline>```\<newline>```sql\<newline>b'' =
     [\<lparr>Filename = [], Content = ''a'', Language = ''go''\<rparr>]"
proof -
  have h1: "Split ''```go\<newline>a\<newline>```\<newline>```sql\<newline>b'' CHR ''\<newline>'' = [''```go'', ''a'', ''```''] @ ''```sql'' # [''b'']"
    by code_simp
  have h2: "\<not> inBlock (parseLines parser0 [''```go'', ''a'', ''```''])"
    by code_simp
  have h3: "HasPrefix ''```sql'' fence"
    by code_simp
  have h4: "fence \<notin> set [''b'']"
    by code_simp
  have v: "ParseArtifacts ''```go\<newline>a\<newline>```\<newline>```sql\<newline>b'' =
     [\<lparr>Filename = [], Content = ''a'', Language = ''go''\<rparr>]"
    by code_simp
  from unclosed_block_dropped [OF h1 h2 h3 h4] h1 h2 h3 h4 v show ?thesis
    by blast
qed

text \<open>
  Claim C7. For a block of the output (lines \<open>pre\<close> that leave the extractor outside
  a block, an opening line, body lines none of which is the bare fence, and the
  bare fence) the artifact emitted for it has as filename the value of the last
  body line that begins with \<open>// file:\<close> or \<open># file:\<close>, that value being what
  follows the first colon of the line with the white space around it removed
  (the empty filename when the body has no such line); as content all the body
  lines, hint lines among them, joined by newlines; and as language the rest of
  the opening line.
\<close>

theorem hint_last_wins:
  assumes "Split output CHR ''\<newline>'' = pre @ opener # body @ fence # post"
    and "\<not> inBlock (parseLines parser0 pre)"
    and "HasPrefix opener fence"
    and "fence \<notin> set body"
  shows "\<exists>later. ParseArtifacts output =
           artifacts (parseLines parser0 pre) @
           \<lparr>Filename =
              (if filter isHint body = [] then []
               else TrimSpace (tl (dropWhile (\<lambda>c. c \<noteq> CHR '':'') (last (filter isHint body))))),
            Content = Join body ''\<newline>'',
            Language = TrimPrefix opener fence\<rparr> # later"
proof -
  let ?st = "parseLines parser0 pre"
  let ?b = "parseLines ?st (opener # body @ [fence])"
  obtain later where "artifacts (parseLines ?b post) = artifacts ?b @ later"
    using parseLines_artifacts_grow by blast
  moreover have "pre @ opener # body @ fence # post = pre @ (opener # body @ [fence]) @ post"
    by simp
  then have "ParseArtifacts output = artifacts (parseLines ?b post)"
    unfolding ParseArtifacts_def assms(1) by (simp only: parseLines_append)
  ultimately show ?thesis
    by (subst (asm) (2) parseLines_block [OF assms(2,3,4)]) simp
qed

theorem hint_last_wins_witness:
  "Split ''```go\<newline>// file: a.go\<newline># file:  b.go \<newline>x\<newline>```'' CHR ''\<newline>'' =
     [] @ ''```go'' # [''// file: a.go'', ''# file:  b.go '', ''x''] @ fence # [] \<and>
   \<not> inBlock (parseLines parser0 []) \<and>
   HasPrefix ''```go'' fence \<and>
   fence \<notin> set [''// file: a.go'', ''# file:  b.go '', ''x''] \<and>
   (\<exists>later. ParseArtifacts ''```go\<newline>// file: a.go\<newline># file:  b.go \<newline>x\<newline>```'' =
      artifacts (parseLines parser0 []) @
      \<lparr>Filename = ''b.go'',
        Content = ''// file: a.go\<newline># file:  b.go \<newline>x'',
        Language = ''go''\<rparr> # later)"
proof -
  have h1: "Split ''```go\<newline>// file: a.go\<newline># file:  b.go \<newline>x\<newline>```'' CHR ''\<newline>'' =
     [] @ ''```go'' # [''// file: a.go'', ''# file:  b.go '', ''x''] @ fence # []"
    by code_simp
  have h2: "\<not> inBlock (parseLines parser0 [])"
    by code_simp
  have h3: "HasPrefix ''```go'' fence"
    by code_simp
  have h4: "fence \<notin> set [''// file: a.go'', ''# file:  b.go '', ''x'']"
    by code_simp
  have f: "(if filter isHint [''// file: a.go'', ''# file:  b.go '', ''x''] = [] then []
            else TrimSpace (tl (dropWhile (\<lambda>c. c \<noteq> CHR '':'')
                   (last (filter isHint [''// file: a.go'', ''# file:  b.go '', ''x'']))))) = ''b.go''"
    by code_simp
  have c: "Join [''// file: a.go'', ''# file:  b.go '', ''x''] ''\<newline>'' = ''// file: a.go\<newline># file:  b.go \<newline>x''"
    by code_simp
  have l: "TrimPrefix ''```go'' fence = ''go''"
    by code_simp
  from hint_last_wins [OF h1 h2 h3 h4] have
    "\<exists>later. ParseArtifacts ''```go\<newline>// file: a.go\<newline># file:  b.go \<newline>x\<newline>```'' =
      artifacts (parseLines parser0 []) @
      \<lparr>Filename = ''b.go'',
        Content = ''// file: a.go\<newline># file:  b.go \<newline>x'',
        Language = ''go''\<rparr> # later"
    unfolding f c l .
  with h1 h2 h3 h4 show ?thesis by blast
qed

text \<open>
  Claim C8. For every output that holds a block (lines \<open>pre\<close> that leave the
  extractor outside a block, an opening line, body lines, the bare fence, and the
  lines \<open>post\<close> after it), a body line that begins with the fence and is not the
  bare fence is ordinary content of the block: the extractor emits for the block
  one artifact, whose content is all the body lines, this line among them, joined
  by newlines, whose language is that of the opening line, and whose filename is
  the one that the other body lines give. The line opens no block of its own:
  the artifacts before this one are those of the lines \<open>pre\<close>, and the ones after
  it those of the lines \<open>post\<close> read from outside a block, since the first bare
  fence after the opening line closes the block.
\<close>

theorem fence_inside_block:
  assumes "Split output CHR ''\<newline>'' = pre @ opener # before @ line # after @ fence # post"
    and "\<not> inBlock (parseLines parser0 pre)"
    and "HasPrefix opener fence"
    and "HasPrefix line fence"
    and "line \<noteq> fence"
    and "fence \<notin> set before"
    and "fence \<notin> set after"
  shows "ParseArtifacts output =
           ParseArtifacts (Join pre ''\<newline>'') @
           \<lparr>Filename =
              (if filter isHint (before @ after) = [] then []
               else TrimSpace (tl (dropWhile (\<lambda>c. c \<noteq> CHR '':'')
                      (last (filter isHint (before @ after)))))),
            Content = Join (before @ line # after) ''\<newline>'',
            Language = TrimPrefix opener fence\<rparr> #
           ParseArtifacts (Join post ''\<newline>'')"
proof -
  let ?body = "before @ line # after"
  let ?st = "parseLines parser0 pre"
  let ?b = "parseLines ?st (opener # ?body @ [fence])"
  have body: "fence \<notin> set ?body"
    using assms(5,6,7) by auto
  have nh: "\<not> isHint line"
    using assms(4) by (rule fence_not_hint)
  have block: "?b = ?st\<lparr>lang := TrimPrefix opener fence,
        filename :=
          (if filter isHint ?body = [] then []
           else TrimSpace (tl (dropWhile (\<lambda>c. c \<noteq> CHR '':'') (last (filter isHint ?body))))),
        blockLines := ?body,
        artifacts := artifacts ?st @
          [\<lparr>Filename =
              (if filter isHint ?body = [] then []
               else TrimSpace (tl (dropWhile (\<lambda>c. c \<noteq> CHR '':'') (last (filter isHint ?body))))),
            Content = Join ?body ''\<newline>'',
            Language = TrimPrefix opener fence\<rparr>]\<rparr>"
    using assms(2,3) body by (rule parseLines_block)
  have out: "\<not> inBlock ?b"
    using assms(2) by (subst block) simp
  have arts: "artifacts ?b = artifacts ?st @
          [\<lparr>Filename =
              (if filter isHint (before @ after) = [] then []
               else TrimSpace (tl (dropWhile (\<lambda>c. c \<noteq> CHR '':'')
                      (last (filter isHint (before @ after)))))),
            Content = Join ?body ''\<newline>'',
            Language = TrimPrefix opener fence\<rparr>]"
    by (subst block) (simp add: nh)
  have "pre @ opener # before @ line # after @ fence # post = pre @ (opener # ?body @ [fence]) @ post"
    by simp
  then have "ParseArtifacts output = artifacts (parseLines ?b post)"
    unfolding ParseArtifacts_def assms(1) by (simp only: parseLines_append)
  also have "\<dots> = artifacts ?b @ artifacts (parseLines parser0 post)"
    using out by (rule parseLines_outside_fresh)
  also have "\<dots> =
      artifacts ?st @
          \<lparr>Filename =
              (if filter isHint (before @ after) = [] then []
               else TrimSpace (tl (dropWhile (\<lambda>c. c \<noteq> CHR '':'')
                      (last (filter isHint (before @ after)))))),
            Content = Join ?body ''\<newline>'',
            Language = TrimPrefix opener fence\<rparr> # artifacts (parseLines parser0 post)"
    unfolding arts by simp
  finally have 1: "ParseArtifacts output =
      artifacts ?st @
          \<lparr>Filename =
              (if filter isHint (before @ after) = [] then []
               else TrimSpace (tl (dropWhile (\<lambda>c. c \<noteq> CHR '':'')
                      (last (filter isHint (before @ after)))))),
            Content = Join ?body ''\<newline>'',
            Language = TrimPrefix opener fence\<rparr> # artifacts (parseLines parser0 post)" .
  have "\<And>l. l \<in> set pre \<Longrightarrow> CHR ''\<newline>'' \<notin> set l"
    using Split_no_sep [of _ "output" "CHR ''\<newline>''"] by (simp add: assms(1))
  then have 2: "ParseArtifacts (Join pre ''\<newline>'') = artifacts ?st"
    by (rule ParseArtifacts_Join)
  have "\<And>l. l \<in> set post \<Longrightarrow> CHR ''\<newline>'' \<notin> set l"
    using Split_no_sep [of _ "output" "CHR ''\<newline>''"] by (simp add: assms(1))
  then have 3: "ParseArtifacts (Join post ''\<newline>'') = artifacts (parseLines parser0 post)"
    by (rule ParseArtifacts_Join)
  show ?thesis by (simp only: 1 2 3)
qed

theorem fence_inside_block_witness:
  "Split ''```md\<newline>use:\<newline>```go\<newline>code\<newline>```\<newline>```sql\<newline>q\<newline>```'' CHR ''\<newline>'' =
     [] @ ''```md'' # [''use:''] @ ''```go'' # [''code''] @ fence # [''```sql'', ''q'', ''```''] \<and>
   \<not> inBlock (parseLines parser0 []) \<and>
   HasPrefix ''```md'' fence \<and>
   HasPrefix ''```go'' fence \<and>
   ''```go'' \<noteq> fence \<and>
   fence \<notin> set [''use:''] \<and>
   fence \<notin> set [''code''] \<and>
   ParseArtifacts ''```md\<newline>use:\<newline>```go\<newline>code\<newline>```\<newline>```sql\<newline>q\<newline>```'' =
     ParseArtifacts (Join [] ''\<newline>'') @
     \<lparr>Filename = [], Content = ''use:\<newline>```go\<newline>code'', Language = ''md''\<rparr> #
     ParseArtifacts (Join [''```sql'', ''q'', ''```''] ''\<newline>'') \<and>
   ParseArtifacts ''```md\<newline>use:\<newline>```go\<newline>code\<newline>```\<newline>```sql\<newline>q\<newline>```'' =
     [\<lparr>Filename = [], Content = ''use:\<newline>```go\<newline>code'', Language = ''md''\<rparr>,
      \<lparr>Filename = [], Content = ''q'', Language = ''sql''\<rparr>]"
proof -
  have h1: "Split ''```md\<newline>use:\<newline>```go\<newline>code\<newline>```\<newline>```sql\<newline>q\<newline>```'' CHR ''\<newline>'' =
     [] @ ''```md'' # [''use:''] @ ''```go'' # [''code''] @ fence # [''```sql'', ''q'', ''```'']"
    by code_simp
  have h2: "\<not> inBlock (parseLines parser0 [])"
    by code_simp
  have h3: "HasPrefix ''```md'' fence"
    by code_simp
  have h4: "HasPrefix ''```go'' fence"
    by code_simp
  have h5: "''```go'' \<noteq> fence"
    by code_simp
  have h6: "fence \<notin> set [''use:'']"
    by code_simp
  have h7: "fence \<notin> set [''code'']"
    by code_simp
  have f: "(if filter isHint ([''use:''] @ [''code'']) = [] then []
            else TrimSpace (tl (dropWhile (\<lambda>c. c \<noteq> CHR '':'')
                   (last (filter isHint ([''use:''] @ [''code''])))))) = []"
    by code_simp
  have c: "Join ([''use:''] @ ''```go'' # [''code'']) ''\<newline>'' = ''use:\<newline>```go\<newline>code''"
    by code_simp
  have l: "TrimPrefix ''```md'' fence = ''md''"
    by code_simp
  have v: "ParseArtifacts ''```md\<newline>use:\<newline>```go\<newline>code\<newline>```\<newline>```sql\<newline>q\<newline>```'' =
     [\<lparr>Filename = [], Content = ''use:\<newline>```go\<newline>code'', Language = ''md''\<rparr>,
      \<lparr>Filename = [], Content = ''q'', Language = ''sql''\<rparr>]"
    by code_simp
  from fence_inside_block [OF h1 h2 h3 h4 h5 h6 h7] have
    "ParseArtifacts ''```md\<newline>use:\<newline>```go\<newline>code\<newline>```\<newline>```sql\<newline>q\<newline>```'' =
     ParseArtifacts (Join [] ''\<newline>'') @
     \<lparr>Filename = [], Content = ''use:\<newline>```go\<newline>code'', Language = ''md''\<rparr> #
     ParseArtifacts (Join [''```sql'', ''q'', ''```''] ''\<newline>'')"
    unfolding f c l .
  with h1 h2 h3 h4 h5 h6 h7 v show ?thesis by blast
qed

section \<open>Properties of the agents\<close>

text \<open>
  Claim C1, as the code has it. The naming pass keeps the number and the order of
  the artifacts. An artifact with a filename keeps it. An artifact without one is
  named only when its language tag is \<open>go\<close> (\<open><family>_<n>.go\<close>) or, for the
  backend agent, \<open>sql\<close> (\<open>migration_<n>.sql\<close>), and \<open>n\<close> is its position, from 1,
  among all the artifacts of the stage; with any other tag its filename stays
  empty.
\<close>

theorem default_names_by_index:
  "length (defaultNames a arts) = length arts \<and>
   (\<forall>i<length arts.
      Filename (defaultNames a arts ! i) =
        (if Filename (arts ! i) \<noteq> [] then Filename (arts ! i)
         else if Language (arts ! i) = ''go'' then goFamily a @ ''_'' @ itoa (i + 1) @ ''.go''
         else if a = BackendDBAgent \<and> Language (arts ! i) = ''sql''
           then ''migration_'' @ itoa (i + 1) @ ''.sql''
         else []))"
  by (simp add: length_defaultNames nth_defaultNames)

theorem default_names_by_index_witness:
  "(1::nat) < length namedAndUnnamed \<and>
   Filename (namedAndUnnamed ! 1) = [] \<and>
   Language (namedAndUnnamed ! 1) = ''go'' \<and>
   Filename (defaultNames APIDesignAgent namedAndUnnamed ! 1) = ''api_2.go''"
proof -
  have len: "(1::nat) < length namedAndUnnamed"
    by (simp add: namedAndUnnamed_def)
  have f: "Filename (namedAndUnnamed ! 1) = []" and l: "Language (namedAndUnnamed ! 1) = ''go''"
    by (simp_all add: namedAndUnnamed_def)
  have n: "itoa (1 + 1) = ''2''"
    by code_simp
  from default_names_by_index [of APIDesignAgent namedAndUnnamed] len
  have "Filename (defaultNames APIDesignAgent namedAndUnnamed ! 1) =
        (if Filename (namedAndUnnamed ! 1) \<noteq> [] then Filename (namedAndUnnamed ! 1)
         else if Language (namedAndUnnamed ! 1) = ''go''
           then goFamily APIDesignAgent @ ''_'' @ itoa (1 + 1) @ ''.go''
         else if APIDesignAgent = BackendDBAgent \<and> Language (namedAndUnnamed ! 1) = ''sql''
           then ''migration_'' @ itoa (1 + 1) @ ''.sql''
         else [])"
    by blast
  with len f l n show ?thesis by simp
qed

text \<open>
  Claim C1, as stated, fails on the output \<open>threeBlocks\<close>. The extractor gives a
  Go artifact named by its hint and two artifacts without a filename, tagged
  \<open>go\<close> and \<open>yaml\<close>. The API design agent names the second \<open>api_2.go\<close>, by its
  position among all three, and leaves the third without a filename; the naming
  of the specification gives \<open>api_1.go\<close> and \<open>api_2.yaml\<close>.
\<close>

theorem default_names_not_as_specified:
  "map Filename (defaultNames APIDesignAgent (ParseArtifacts threeBlocks)) \<noteq>
     map Filename (specDefaultNames ''api'' 0 (ParseArtifacts threeBlocks)) \<and>
   map Filename (ParseArtifacts threeBlocks) = [''a.go'', [], []] \<and>
   map Language (ParseArtifacts threeBlocks) = [''go'', ''go'', ''yaml''] \<and>
   map Filename (defaultNames APIDesignAgent (ParseArtifacts threeBlocks)) = [''a.go'', ''api_2.go'', []] \<and>
   map Filename (specDefaultNames ''api'' 0 (ParseArtifacts threeBlocks)) = [''a.go'', ''api_1.go'', ''api_2.yaml'']"
  by code_simp

text \<open>
  Claim C10. The naming pass changes nothing but filenames: the number and the
  order of the artifacts, and the content and the language of each, are those of
  the extractor. An artifact that has a filename is returned as it is, and so is
  one whose language is not among those the agent names (\<open>go\<close>, and \<open>sql\<close> for
  the backend agent).
\<close>

theorem default_names_frame:
  "length (defaultNames a arts) = length arts \<and>
   (\<forall>i<length arts.
      Content (defaultNames a arts ! i) = Content (arts ! i) \<and>
      Language (defaultNames a arts ! i) = Language (arts ! i) \<and>
      (Filename (arts ! i) \<noteq> [] \<longrightarrow> defaultNames a arts ! i = arts ! i) \<and>
      (Language (arts ! i) \<noteq> ''go'' \<and> (a = BackendDBAgent \<longrightarrow> Language (arts ! i) \<noteq> ''sql'')
         \<longrightarrow> defaultNames a arts ! i = arts ! i))"
  by (simp add: length_defaultNames nth_defaultNames)

theorem default_names_frame_witness:
  "(2::nat) < length namedAndUnnamed \<and>
   Language (namedAndUnnamed ! 2) \<noteq> ''go'' \<and>
   Language (namedAndUnnamed ! 2) \<noteq> ''sql'' \<and>
   Content (defaultNames BackendDBAgent namedAndUnnamed ! 2) = Content (namedAndUnnamed ! 2) \<and>
   Language (defaultNames BackendDBAgent namedAndUnnamed ! 2) = Language (namedAndUnnamed ! 2) \<and>
   defaultNames BackendDBAgent namedAndUnnamed ! 2 = namedAndUnnamed ! 2"
proof -
  have len: "(2::nat) < length namedAndUnnamed"
    by (simp add: namedAndUnnamed_def)
  have l: "Language (namedAndUnnamed ! 2) \<noteq> ''go''"
    and s: "Language (namedAndUnnamed ! 2) \<noteq> ''sql''"
    by (simp_all add: namedAndUnnamed_def)
  from default_names_frame [of BackendDBAgent namedAndUnnamed] len l s show ?thesis
    by blast
qed

text \<open>
  Claim C4. When \<open>Chat\<close> returns an error, \<open>Run\<close> returns no result and an error
  whose message begins with the name of the agent in brackets and which wraps
  the error of \<open>Chat\<close>, whatever text came with the error: nothing is extracted.
  With the \<open>Chat\<close> of the sources, a failed call of the client gives the error
  of the client wrapped twice.
\<close>

theorem run_chat_error:
  "Run a (output, Some err) =
     (None, Some (wrapError (''['' @ agentName a @ ''] failed: '' @ message err) err)) \<and>
   Run a (Chat (blocks, Some cause)) =
     (None, Some (Errorf (''['' @ agentName a @ ''] failed: '') (Errorf ''claude API error: '' cause)))"
  by (simp add: Run_def Chat_def Errorf_def)

section \<open>Properties of the prompt\<close>

text \<open>
  Claim C9. The prompt is a function of the seven fields of the definition and
  of nothing else, so rendering it again gives the same text. The text is the
  name, the description and the language, then the sections of the entities, the
  operations, the integrations and the extra requirements in this order, each
  with its elements in their order, and a section is left out when its sequence
  is empty.
\<close>

theorem Prompt_deterministic:
  "Prompt s =
     ''Microservice Name: '' @ Name s @ ''\<newline>\<newline>'' @
     ''Description:\<newline>'' @ Description s @ ''\<newline>\<newline>'' @
     ''Language: '' @ TargetLanguage s @ ''\<newline>\<newline>'' @
     (if Entities s = [] then []
      else ''Core Domain Entities:\<newline>'' @
           concat (map (\<lambda>e. ''  - '' @ e @ ''\<newline>'') (Entities s)) @ ''\<newline>'') @
     (if Operations s = [] then []
      else ''Key Business Operations:\<newline>'' @
           concat (map (\<lambda>e. ''  - '' @ e @ ''\<newline>'') (Operations s)) @ ''\<newline>'') @
     (if Integrations s = [] then []
      else ''External Integrations:\<newline>'' @
           concat (map (\<lambda>e. ''  - '' @ e @ ''\<newline>'') (Integrations s)) @ ''\<newline>'') @
     (if ExtraRequirements s = [] then []
      else ''Additional Requirements:\<newline>'' @
           concat (map (\<lambda>e. ''  - '' @ e @ ''\<newline>'') (ExtraRequirements s)) @ ''\<newline>'') \<and>
   (\<forall>s'. Name s' = Name s \<and> Description s' = Description s \<and>
         TargetLanguage s' = TargetLanguage s \<and> Entities s' = Entities s \<and>
         Operations s' = Operations s \<and> Integrations s' = Integrations s \<and>
         ExtraRequirements s' = ExtraRequirements s \<longrightarrow>
         Prompt s' = Prompt s)"
proof (intro conjI allI impI)
  show "Prompt s =
     ''Microservice Name: '' @ Name s @ ''\<newline>\<newline>'' @
     ''Description:\<newline>'' @ Description s @ ''\<newline>\<newline>'' @
     ''Language: '' @ TargetLanguage s @ ''\<newline>\<newline>'' @
     (if Entities s = [] then []
      else ''Core Domain Entities:\<newline>'' @
           concat (map (\<lambda>e. ''  - '' @ e @ ''\<newline>'') (Entities s)) @ ''\<newline>'') @
     (if Operations s = [] then []
      else ''Key Business Operations:\<newline>'' @
           concat (map (\<lambda>e. ''  - '' @ e @ ''\<newline>'') (Operations s)) @ ''\<newline>'') @
     (if Integrations s = [] then []
      else ''External Integrations:\<newline>'' @
           concat (map (\<lambda>e. ''  - '' @ e @ ''\<newline>'') (Integrations s)) @ ''\<newline>'') @
     (if ExtraRequirements s = [] then []
      else ''Additional Requirements:\<newline>'' @
           concat (map (\<lambda>e. ''  - '' @ e @ ''\<newline>'') (ExtraRequirements s)) @ ''\<newline>'')"
    by (rule Prompt_text)
next
  fix s' :: ServiceDefinition
  assume "Name s' = Name s \<and> Description s' = Description s \<and>
         TargetLanguage s' = TargetLanguage s \<and> Entities s' = Entities s \<and>
         Operations s' = Operations s \<and> Integrations s' = Integrations s \<and>
         ExtraRequirements s' = ExtraRequirements s"
  then show "Prompt s' = Prompt s"
    by (simp only: Prompt_text)
qed

theorem Prompt_deterministic_witness:
  "Prompt \<lparr>Name = ''orders'', Description = ''Manages orders'', TargetLanguage = ''Go'',
           Entities = [''Order'', ''Address''], Operations = [], Integrations = [''PostgreSQL''],
           ExtraRequirements = []\<rparr> =
     ''Microservice Name: orders\<newline>\<newline>Description:\<newline>Manages orders\<newline>\<newline>Language: Go\<newline>\<newline>Core Domain Entities:\<newline>  - Order\<newline>  - Address\<newline>\<newline>External Integrations:\<newline>  - PostgreSQL\<newline>\<newline>''"
  using Prompt_deterministic
    [of "\<lparr>Name = ''orders'', Description = ''Manages orders'', TargetLanguage = ''Go'',
           Entities = [''Order'', ''Address''], Operations = [], Integrations = [''PostgreSQL''],
           ExtraRequirements = []\<rparr>"]
  by simp

section \<open>Properties of the pipeline\<close>

text \<open>
  Claim C5. When a stage succeeds, the value that the pipeline stores in the
  context under the key of the stage is the first 3000 characters of the raw
  output when the output is longer than that, so a value of length 3000 exactly,
  and the raw output itself otherwise; the stages that follow run on this
  context.
\<close>

theorem context_value_truncated:
  assumes "stageRun s (agentContext st) = Inr r"
  shows "\<exists>v. agentContext (fst (runStage st s)) (contextKey s) = Some v \<and>
           (contextCap < length (Output r) \<longrightarrow> v = take contextCap (Output r) \<and> length v = contextCap) \<and>
           (length (Output r) \<le> contextCap \<longrightarrow> v = Output r) \<and>
           contextCap = 3000 \<and>
           runStages st (s # ss) = runStages (fst (runStage st s)) ss"
  by (simp add: runStage_ok [OF assms] truncateOutput_def contextCap_def)

theorem context_value_truncated_witness:
  "stageRun (stubStage ''API Design Agent'' ''api_design'' (Inr (replicate 3001 CHR ''a'')))
     (agentContext (pipelineState0 InventoryService)) =
     Inr \<lparr>AgentName = ''API Design Agent'', Output = replicate 3001 CHR ''a'',
          Artifacts = [], Error = None\<rparr> \<and>
   contextCap < length (replicate 3001 CHR ''a'') \<and>
   agentContext
     (fst (runStage (pipelineState0 InventoryService)
        (stubStage ''API Design Agent'' ''api_design'' (Inr (replicate 3001 CHR ''a'')))))
     ''api_design'' = Some (replicate 3000 CHR ''a'')"
proof -
  let ?s = "stubStage ''API Design Agent'' ''api_design'' (Inr (replicate 3001 CHR ''a''))"
  let ?r = "\<lparr>AgentName = ''API Design Agent'', Output = replicate 3001 CHR ''a'',
          Artifacts = [], Error = None\<rparr>"
  have h: "stageRun ?s (agentContext (pipelineState0 InventoryService)) = Inr ?r"
    by (simp add: stubStage_def)
  have k: "contextKey ?s = ''api_design''"
    by (simp add: stubStage_def)
  have c: "contextCap < length (replicate 3001 CHR ''a'')"
    by (simp add: contextCap_def)
  have t: "take contextCap (replicate 3001 CHR ''a'') = replicate 3000 CHR ''a''"
    by (simp add: contextCap_def)
  from context_value_truncated [OF h, of "[]"] obtain v where
    v: "agentContext (fst (runStage (pipelineState0 InventoryService) ?s)) (contextKey ?s) = Some v"
    and "contextCap < length (Output ?r) \<longrightarrow> v = take contextCap (Output ?r) \<and> length v = contextCap"
    by blast
  with c have "v = take contextCap (replicate 3001 CHR ''a'')" by simp
  with v k t h c show ?thesis by simp
qed

text \<open>
  Claim C6. When the stages before some stage all succeed and that stage returns
  an error, the run returns no result and the error of the stage wrapped with
  the name of the stage, whatever the earlier stages produced; the stages invoked
  are those before the failing one and the failing one, none after it.
\<close>

theorem abort_on_failure:
  assumes "runStages (pipelineState0 svc) pre = (st1, None)"
    and "stageRun f (agentContext st1) = Inl e"
  shows "PipelineRun (pre @ f # post) svc =
           (None, Some (wrapError (stageName f @ '': '' @ message e) e)) \<and>
         invoked (fst (runStages (pipelineState0 svc) (pre @ f # post))) =
           map stageName pre @ [stageName f]"
proof -
  have "runStages (pipelineState0 svc) (pre @ f # post) = runStages st1 (f # post)"
    using assms(1) by (rule runStages_append)
  also have "\<dots> = (st1\<lparr>invoked := invoked st1 @ [stageName f]\<rparr>, Some (Errorf (stageName f @ '': '') e))"
    by (simp add: runStage_error [OF assms(2)])
  finally have run: "runStages (pipelineState0 svc) (pre @ f # post) =
    (st1\<lparr>invoked := invoked st1 @ [stageName f]\<rparr>, Some (Errorf (stageName f @ '': '') e))" .
  have "invoked st1 = map stageName pre"
    using runStages_invoked [OF assms(1)] by (simp add: pipelineState0_def)
  with run show ?thesis by (simp add: PipelineRun_def Errorf_def)
qed

theorem abort_on_failure_witness:
  "runStages (pipelineState0 InventoryService)
     [stubStage ''API Design Agent'' ''api_design'' (Inr ''routes'')] =
     (fst (runStages (pipelineState0 InventoryService)
        [stubStage ''API Design Agent'' ''api_design'' (Inr ''routes'')]), None) \<and>
   stageRun (stubStage ''Backend & Database Agent'' ''backend_db'' (Inl (errorString ''quota'')))
     (agentContext (fst (runStages (pipelineState0 InventoryService)
        [stubStage ''API Design Agent'' ''api_design'' (Inr ''routes'')]))) =
     Inl (errorString ''quota'') \<and>
   PipelineRun
     [stubStage ''API Design Agent'' ''api_design'' (Inr ''routes''),
      stubStage ''Backend & Database Agent'' ''backend_db'' (Inl (errorString ''quota'')),
      stubStage ''Messaging & Events Agent'' ''messaging'' (Inr ''events''),
      stubStage ''Testing & Security Agent'' ''testing_security'' (Inr ''tests'')]
     InventoryService =
     (None, Some (wrapError ''Backend & Database Agent: quota'' (errorString ''quota''))) \<and>
   invoked (fst (runStages (pipelineState0 InventoryService)
     [stubStage ''API Design Agent'' ''api_design'' (Inr ''routes''),
      stubStage ''Backend & Database Agent'' ''backend_db'' (Inl (errorString ''quota'')),
      stubStage ''Messaging & Events Agent'' ''messaging'' (Inr ''events''),
      stubStage ''Testing & Security Agent'' ''testing_security'' (Inr ''tests'')])) =
     [''API Design Agent'', ''Backend & Database Agent'']"
proof -
  let ?s1 = "stubStage ''API Design Agent'' ''api_design'' (Inr ''routes'')"
  let ?s2 = "stubStage ''Backend & Database Agent'' ''backend_db'' (Inl (errorString ''quota''))"
  let ?s3 = "stubStage ''Messaging & Events Agent'' ''messaging'' (Inr ''events'')"
  let ?s4 = "stubStage ''Testing & Security Agent'' ''testing_security'' (Inr ''tests'')"
  let ?st1 = "fst (runStages (pipelineState0 InventoryService) [?s1])"
  have "snd (runStages (pipelineState0 InventoryService) [?s1]) = None"
    by (simp add: runStage_def stubStage_def)
  then have h1: "runStages (pipelineState0 InventoryService) [?s1] = (?st1, None)"
    by (metis prod.collapse)
  have h2: "stageRun ?s2 (agentContext ?st1) = Inl (errorString ''quota'')"
    by (simp add: stubStage_def)
  have n: "stageName ?s1 = ''API Design Agent''" "stageName ?s2 = ''Backend & Database Agent''"
    by (simp_all add: stubStage_def)
  from abort_on_failure [OF h1 h2, of "[?s3, ?s4]"] h1 h2 n show ?thesis
    by simp
qed

end
